theory Spec2Isabelle
  imports Main "HOL-Library.AList"
begin

section \<open>JavaScript values held by the Realtime Database\<close>

text \<open>
  The value stored at a location of the database is a boolean, a number, a string, or a
  list of named children that are again such values. \<open>JObj\<close> is such a list, one entry for
  each key, in the order in which \<^verbatim>\<open>for ... in\<close> enumerates the keys of the object that
  \<^verbatim>\<open>snapshot.val()\<close> builds from it; \<open>JObj []\<close> at the root is the empty location, whose
  \<^verbatim>\<open>val()\<close> has no key to enumerate. A number is kept as the text JavaScript prints for
  it, which determines the number: \<^verbatim>\<open>0\<close> and \<^verbatim>\<open>-0\<close> are both \<open>JNum ''0''\<close>. \<open>JNull\<close> and
  \<open>JUndefined\<close> are JavaScript's \<^verbatim>\<open>null\<close> and \<^verbatim>\<open>undefined\<close>; the database stores neither, and
  \<open>JUndefined\<close> is what reading a missing property gives.
\<close>

datatype jsval =
    JUndefined
  | JNull
  | JBool bool
  | JNum string
  | JStr string
  | JObj "(string \<times> jsval) list"

text \<open>ToBoolean, as the \<^verbatim>\<open>&&\<close> of line 24 applies it to its left operand.\<close>

fun truthy :: "jsval \<Rightarrow> bool" where
  "truthy JUndefined = False"
| "truthy JNull = False"
| "truthy (JBool b) = b"
| "truthy (JNum n) = (n \<noteq> ''0'' \<and> n \<noteq> ''NaN'')"
| "truthy (JStr s) = (s \<noteq> [])"
| "truthy (JObj kvs) = True"

definition nullish :: "jsval \<Rightarrow> bool" where
  "nullish v = (v = JUndefined \<or> v = JNull)"

definition digit :: "nat \<Rightarrow> char" where
  "digit d = ''0123456789'' ! d"

fun show_nat :: "nat \<Rightarrow> string" where
  "show_nat n = (if n < 10 then [digit n] else show_nat (n div 10) @ [digit (n mod 10)])"

declare show_nat.simps [simp del]

subsection \<open>The stored tree\<close>

text \<open>The children of a stored value, as \<^verbatim>\<open>ref.child(k)\<close> addresses them.\<close>

fun child_keys :: "jsval \<Rightarrow> string list" where
  "child_keys (JObj kvs) = map fst kvs"
| "child_keys v = []"

fun child :: "jsval \<Rightarrow> string \<Rightarrow> jsval" where
  "child (JObj kvs) k = (case map_of kvs k of Some v \<Rightarrow> v | None \<Rightarrow> JUndefined)"
| "child v k = JUndefined"

subsection \<open>The object that val() builds\<close>

text \<open>
  \<^verbatim>\<open>val()\<close> starts from \<^verbatim>\<open>{}\<close> and assigns \<^verbatim>\<open>obj[key] = child.val()\<close> for each child. For the
  key \<^verbatim>\<open>__proto__\<close> that assignment creates no property: it makes the child's object the
  prototype of \<^verbatim>\<open>obj\<close>, and does nothing when the child is not an object. The enumerable own
  properties are therefore the other children; those of a string are its characters, by
  index.
\<close>

fun own_props :: "jsval \<Rightarrow> (string \<times> jsval) list" where
  "own_props (JObj kvs) = filter (\<lambda>(k, v). k \<noteq> ''__proto__'') kvs"
| "own_props (JStr s) = map (\<lambda>i. (show_nat i, JStr [s ! i])) [0..<length s]"
| "own_props v = []"

fun proto_of :: "jsval \<Rightarrow> jsval option" where
  "proto_of (JObj kvs) =
     (case map_of kvs ''__proto__'' of Some (JObj p) \<Rightarrow> Some (JObj p) | _ \<Rightarrow> None)"
| "proto_of v = None"

text \<open>The object itself, its prototype, the prototype of that, and so on.\<close>

function chain :: "jsval \<Rightarrow> jsval list" where
  "chain v = v # (case proto_of v of Some p \<Rightarrow> chain p | None \<Rightarrow> [])"
  by pat_completeness auto
termination
proof (relation "measure size")
  show "wf (measure size)" by simp
next
  fix v p :: jsval
  assume p: "proto_of v = Some p"
  have "size x < Suc (size_list (size_prod (\<lambda>_. 0) size) xs)" if "map_of xs k = Some x"
    for xs :: "(string \<times> jsval) list" and k x
    using that by (induction xs) (auto split: if_splits)
  with p have "size p < size v"
    by (cases v) (auto split: option.splits jsval.splits)
  then show "(p, v) \<in> measure size" by simp
qed

declare chain.simps [simp del]

text \<open>
  The properties a read of \<open>v\<close> can find, nearest first: a property of a prototype is found
  only under a key that no object before it in the chain has.
\<close>

definition all_props :: "jsval \<Rightarrow> (string \<times> jsval) list" where
  "all_props v = concat (map own_props (chain v))"

fun uniq :: "string list \<Rightarrow> string list" where
  "uniq [] = []"
| "uniq (k # ks) = k # uniq (filter (\<lambda>j. j \<noteq> k) ks)"

text \<open>
  The keys \<^verbatim>\<open>for (const k in v)\<close> visits: the own properties of \<open>v\<close>, then those of its
  prototypes, each key once; nothing for a value that is neither an object nor a string
  (\<^verbatim>\<open>null\<close> and \<^verbatim>\<open>undefined\<close> included).
\<close>

definition for_in_keys :: "jsval \<Rightarrow> string list" where
  "for_in_keys v = uniq (map fst (all_props v))"

text \<open>
  The value of \<^verbatim>\<open>v[k]\<close> for a \<open>v\<close> that is neither \<^verbatim>\<open>null\<close> nor \<^verbatim>\<open>undefined\<close>: the own
  property, or else the property of the nearest prototype that has one. This is the read
  for the keys the script uses: a key that \<^verbatim>\<open>for ... in\<close> gave, or one of the names
  \<^verbatim>\<open>cardPaymentDetails\<close>, \<^verbatim>\<open>notified\<close>, \<^verbatim>\<open>cardHolderName\<close>, which no built-in prototype defines.
\<close>

definition get :: "jsval \<Rightarrow> string \<Rightarrow> jsval" where
  "get v k =
     (case map_of (all_props v) k of
        Some x \<Rightarrow> x
      | None \<Rightarrow>
          (case v of
             JStr s \<Rightarrow> if k = ''length'' then JNum (show_nat (length s)) else JUndefined
           | _ \<Rightarrow> JUndefined))"

datatype js_error = JsError string

datatype exception = Rejected js_error | TypeError

text \<open>A property read throws a TypeError on \<^verbatim>\<open>null\<close> and \<^verbatim>\<open>undefined\<close>.\<close>

definition get_prop :: "jsval \<Rightarrow> string \<Rightarrow> exception + jsval" where
  "get_prop v k = (if nullish v then Inl TypeError else Inr (get v k))"

section \<open>The services the script talks to\<close>

record fcm_notification =
  title :: string
  body :: string

record fcm_message =
  notification :: fcm_notification
  topic :: string

text \<open>
  Every call the script makes to the outside, with its arguments and, for the two awaited
  service calls, the error it was rejected with (\<open>None\<close>: it resolved).
\<close>

datatype call =
    Send fcm_message "js_error option"
  | Update string "(string \<times> jsval) list" "js_error option"
  | ConsoleLog string
  | ConsoleError string js_error

text \<open>
  What lies outside the script during one run. The services: whether \<^verbatim>\<open>ref.once("value")\<close>
  is rejected, and for the loop iteration of each session id whether \<^verbatim>\<open>messaging.send\<close> and
  \<^verbatim>\<open>ref.child(sessionId).update\<close> are rejected, and with which error (\<open>None\<close>: the call
  resolves); a rejected send delivered nothing and a rejected update wrote nothing. The
  language: \<open>object_string\<close> is what a template literal yields for an object that finds no
  \<^verbatim>\<open>toString\<close> among its stored keys, where JavaScript calls the built-in
  \<^verbatim>\<open>Object.prototype.toString\<close> or \<^verbatim>\<open>Array.prototype.toString\<close>: \<^verbatim>\<open>[object Object]\<close>, the joined
  elements of the array that \<^verbatim>\<open>val()\<close> presents for children with consecutive integer
  keys, or a TypeError (\<open>None\<close>). It is a function of the value that is not interpreted
  here; the theorems hold for whatever it is.
\<close>

record env =
  once_result :: "js_error option"
  send_result :: "string \<Rightarrow> js_error option"
  update_result :: "string \<Rightarrow> js_error option"
  object_string :: "jsval \<Rightarrow> string option"

text \<open>
  The answer of the built-in \<^verbatim>\<open>Object.prototype.toString\<close> for an object; the runs evaluated
  below take it for every object.
\<close>

definition plain_object_string :: "jsval \<Rightarrow> string option" where
  "plain_object_string v = Some ''[object Object]''"

text \<open>
  ToString, as a template literal applies it to an interpolated value. An object with a
  stored key \<^verbatim>\<open>toString\<close>, its own or inherited, has a \<^verbatim>\<open>toString\<close> that is no function;
  \<^verbatim>\<open>valueOf\<close>, stored or built in, gives no primitive either, and the conversion throws.
\<close>

fun to_string :: "env \<Rightarrow> jsval \<Rightarrow> exception + string" where
  "to_string e JUndefined = Inr ''undefined''"
| "to_string e JNull = Inr ''null''"
| "to_string e (JBool b) = Inr (if b then ''true'' else ''false'')"
| "to_string e (JNum n) = Inr n"
| "to_string e (JStr s) = Inr s"
| "to_string e (JObj kvs) =
     (if ''toString'' \<in> set (for_in_keys (JObj kvs)) then Inl TypeError
      else (case object_string e (JObj kvs) of None \<Rightarrow> Inl TypeError | Some s \<Rightarrow> Inr s))"

text \<open>
  The state outside the process: the value stored at
  \<^verbatim>\<open>/artifacts/default-app-id/public/data/paymentSessions\<close>, and the calls made so far, oldest
  first, each paired with the session id of the loop iteration that made it.
\<close>

record world =
  db :: jsval
  trace :: "(string \<times> call) list"

definition start :: "jsval \<Rightarrow> world" where
  "start d = \<lparr>db = d, trace = []\<rparr>"

text \<open>
  \<^verbatim>\<open>ref.child(k).update(changes)\<close> applied to the stored value: the changes are merged into
  the child at \<open>k\<close>, which is created, or replaces a value that is not an object, where
  there is no object to merge into.
\<close>

definition child_update :: "jsval \<Rightarrow> string \<Rightarrow> (string \<times> jsval) list \<Rightarrow> jsval" where
  "child_update root k changes =
     (let kvs = (case root of JObj kvs \<Rightarrow> kvs | _ \<Rightarrow> []);
          old = (case map_of kvs k of Some (JObj fs) \<Rightarrow> fs | _ \<Rightarrow> [])
      in JObj (AList.update k (JObj (fold (\<lambda>(f, v). AList.update f v) changes old)) kvs))"

section \<open>sendNotifications\<close>

text \<open>
  Lines 34 to 40: the \<^verbatim>\<open>try\<close> block and its \<^verbatim>\<open>catch\<close>. \<open>name\<close> is the text of the card
  holder name, which the template literal of line 37 yields as that of line 29 did.
\<close>

definition try_send :: "env \<Rightarrow> string \<Rightarrow> fcm_message \<Rightarrow> string \<Rightarrow> world \<Rightarrow> world" where
  "try_send e sessionId message name w =
     (case send_result e sessionId of
        Some err \<Rightarrow>
          w\<lparr>trace := trace w @
            [(sessionId, Send message (Some err)),
             (sessionId, ConsoleError ''Error sending notification:'' err)]\<rparr>
      | None \<Rightarrow>
          (case update_result e sessionId of
             Some err \<Rightarrow>
               w\<lparr>trace := trace w @
                 [(sessionId, Send message None),
                  (sessionId, Update sessionId [(''notified'', JBool True)] (Some err)),
                  (sessionId, ConsoleError ''Error sending notification:'' err)]\<rparr>
           | None \<Rightarrow>
               w\<lparr>db := child_update (db w) sessionId [(''notified'', JBool True)],
                 trace := trace w @
                 [(sessionId, Send message None),
                  (sessionId, Update sessionId [(''notified'', JBool True)] None),
                  (sessionId, ConsoleLog (''Notification sent for card: '' @ name))]\<rparr>))"

text \<open>
  Lines 23 to 41: the body of the loop, for one key of the snapshot. The message of lines
  26 to 32 is built before the \<^verbatim>\<open>try\<close>: a TypeError of its template literal ends the run.
\<close>

definition loop_body :: "env \<Rightarrow> jsval \<Rightarrow> string \<Rightarrow> world \<Rightarrow> (exception + unit) \<times> world" where
  "loop_body e data sessionId w =
     (case get_prop data sessionId of
        Inl x \<Rightarrow> (Inl x, w)
      | Inr session \<Rightarrow>
     (case get_prop session ''cardPaymentDetails'' of
        Inl x \<Rightarrow> (Inl x, w)
      | Inr cardPaymentDetails \<Rightarrow>
          if truthy cardPaymentDetails \<and> get session ''notified'' \<noteq> JBool True then
            (case get_prop cardPaymentDetails ''cardHolderName'' of
               Inl x \<Rightarrow> (Inl x, w)
             | Inr cardHolderName \<Rightarrow>
            (case to_string e cardHolderName of
               Inl x \<Rightarrow> (Inl x, w)
             | Inr name \<Rightarrow>
                 let message =
                   \<lparr>notification =
                      \<lparr>title = ''New Card Added'', body = ''Cardholder: '' @ name\<rparr>,
                    topic = ''admin''\<rparr>
                 in (Inr (), try_send e sessionId message name w)))
          else (Inr (), w)))"

text \<open>Line 22: the loop over the keys of the snapshot; an exception ends it.\<close>

fun for_in :: "env \<Rightarrow> jsval \<Rightarrow> string list \<Rightarrow> world \<Rightarrow> (exception + unit) \<times> world" where
  "for_in e data [] w = (Inr (), w)"
| "for_in e data (sessionId # ks) w =
     (case loop_body e data sessionId w of
        (Inl x, w') \<Rightarrow> (Inl x, w')
      | (Inr u, w') \<Rightarrow> for_in e data ks w')"

text \<open>
  Lines 17 to 43. The snapshot is the value stored when \<^verbatim>\<open>once\<close> resolves; a rejected
  \<^verbatim>\<open>once\<close> rejects the promise of \<^verbatim>\<open>sendNotifications\<close>.
\<close>

definition sendNotifications :: "env \<Rightarrow> world \<Rightarrow> (exception + unit) \<times> world" where
  "sendNotifications e w =
     (case once_result e of
        Some err \<Rightarrow> (Inl (Rejected err), w)
      | None \<Rightarrow> (let data = db w in for_in e data (for_in_keys data) w))"

section \<open>What one iteration does\<close>

text \<open>
  The definitions of this section restate, for the proofs, what one pass through the loop
  body does to the world: whether the condition of line 24 holds for a key, whether the
  pass throws, the message of lines 26 to 32, the calls the \<^verbatim>\<open>try\<close> block adds to the trace,
  and the change it makes to the stored value. \<open>loop_body_eq\<close> and \<open>for_in_eq\<close> below prove
  that the loop is exactly their composition, up to the first key whose pass throws.
\<close>

definition candidate :: "jsval \<Rightarrow> string \<Rightarrow> bool" where
  "candidate data k =
     (truthy (get (get data k) ''cardPaymentDetails'') \<and>
      get (get data k) ''notified'' \<noteq> JBool True)"

definition card_holder :: "jsval \<Rightarrow> string \<Rightarrow> jsval" where
  "card_holder data k = get (get (get data k) ''cardPaymentDetails'') ''cardHolderName''"

definition payload :: "string \<Rightarrow> fcm_message" where
  "payload name =
     \<lparr>notification = \<lparr>title = ''New Card Added'', body = ''Cardholder: '' @ name\<rparr>,
      topic = ''admin''\<rparr>"

definition throws :: "env \<Rightarrow> jsval \<Rightarrow> string \<Rightarrow> bool" where
  "throws e data k =
     (nullish (get data k) \<or> (candidate data k \<and> isl (to_string e (card_holder data k))))"

definition marks :: "env \<Rightarrow> jsval \<Rightarrow> string \<Rightarrow> bool" where
  "marks e data k = (candidate data k \<and> send_result e k = None \<and> update_result e k = None)"

definition block :: "env \<Rightarrow> jsval \<Rightarrow> string \<Rightarrow> (string \<times> call) list" where
  "block e data k =
     (if candidate data k
      then (case to_string e (card_holder data k) of
              Inl x \<Rightarrow> []
            | Inr name \<Rightarrow> trace (try_send e k (payload name) name (start JNull)))
      else [])"

definition reached :: "env \<Rightarrow> jsval \<Rightarrow> string list" where
  "reached e data = takeWhile (\<lambda>k. \<not> throws e data k) (for_in_keys data)"

definition marked :: "jsval \<Rightarrow> jsval" where
  "marked s =
     (case s of
        JObj fs \<Rightarrow> JObj (AList.update ''notified'' (JBool True) fs)
      | _ \<Rightarrow> JObj [(''notified'', JBool True)])"

definition mark_step :: "env \<Rightarrow> jsval \<Rightarrow> string \<Rightarrow> jsval \<Rightarrow> jsval" where
  "mark_step e data k d =
     (if marks e data k then child_update d k [(''notified'', JBool True)] else d)"

definition marked_rel :: "string set \<Rightarrow> string list \<Rightarrow> jsval \<Rightarrow> jsval \<Rightarrow> bool" where
  "marked_rel M new data d =
     (\<exists>kvs kvs'. data = JObj kvs \<and> d = JObj kvs' \<and> map fst kvs' = map fst kvs @ new \<and>
        set new \<subseteq> M \<and> set new \<inter> set (map fst kvs) = {} \<and>
        (\<forall>k. map_of kvs' k =
           (if k \<in> M then Some (marked (child data k)) else map_of kvs k)))"

definition inherited_keys :: "jsval \<Rightarrow> string list" where
  "inherited_keys v = (case proto_of v of Some p \<Rightarrow> map fst (all_props p) | None \<Rightarrow> [])"

definition is_console :: "call \<Rightarrow> bool" where
  "is_console c = (case c of ConsoleLog s \<Rightarrow> True | ConsoleError s x \<Rightarrow> True | _ \<Rightarrow> False)"

definition console_output :: "(string \<times> call) list \<Rightarrow> call list" where
  "console_output tr = filter is_console (map snd tr)"

definition marked_by :: "env \<Rightarrow> jsval \<Rightarrow> string \<Rightarrow> bool" where
  "marked_by e d k = (once_result e = None \<and> k \<in> set (reached e d) \<and> marks e d k)"

definition update_follows_send :: "(string \<times> call) list \<Rightarrow> bool" where
  "update_follows_send tr =
     (\<forall>i<length tr. \<forall>k j ch r. tr ! i = (k, Update j ch r) \<longrightarrow>
        j = k \<and> 0 < i \<and> (\<exists>m. tr ! (i - 1) = (k, Send m None)))"

section \<open>The loop, iteration by iteration\<close>

lemma truthy_not_nullish: "truthy v \<Longrightarrow> \<not> nullish v"
  by (cases v) (auto simp: nullish_def)

lemma to_string_exception: "to_string e v = Inl x \<Longrightarrow> x = TypeError"
  by (cases v) (auto split: if_splits option.splits)

lemma try_send_eq:
  "try_send e k m n w =
     w\<lparr>db := (if send_result e k = None \<and> update_result e k = None
              then child_update (db w) k [(''notified'', JBool True)] else db w),
       trace := trace w @ trace (try_send e k m n (start JNull))\<rparr>"
  by (simp add: try_send_def start_def split: option.splits)

lemma loop_body_eq:
  assumes "\<not> nullish data"
  shows "loop_body e data k w =
     (if throws e data k then (Inl TypeError, w)
      else (Inr (),
        w\<lparr>db := mark_step e data k (db w), trace := trace w @ block e data k\<rparr>))"
proof (cases "nullish (get data k)")
  case True
  with assms show ?thesis by (simp add: loop_body_def get_prop_def throws_def)
next
  case n: False
  show ?thesis
  proof (cases "candidate data k")
    case False
    with assms n show ?thesis
      by (auto simp: loop_body_def get_prop_def throws_def block_def mark_step_def marks_def
          candidate_def)
  next
    case c: True
    then have t: "\<not> nullish (get (get data k) ''cardPaymentDetails'')"
      by (simp add: candidate_def truthy_not_nullish)
    show ?thesis
    proof (cases "to_string e (card_holder data k)")
      case (Inl x)
      then have "x = TypeError" by (rule to_string_exception)
      with Inl assms n c t show ?thesis
        by (simp add: loop_body_def get_prop_def throws_def candidate_def card_holder_def)
    next
      case (Inr name)
      with assms n c t show ?thesis
        by (simp add: loop_body_def get_prop_def throws_def candidate_def card_holder_def
            block_def mark_step_def marks_def payload_def Let_def try_send_eq [of e k _ _ w])
    qed
  qed
qed

lemma for_in_eq:
  "\<not> nullish data \<Longrightarrow>
   for_in e data ks w =
     (if \<exists>k\<in>set ks. throws e data k then Inl TypeError else Inr (),
      w\<lparr>db := fold (mark_step e data) (takeWhile (\<lambda>k. \<not> throws e data k) ks) (db w),
        trace := trace w @
          concat (map (block e data) (takeWhile (\<lambda>k. \<not> throws e data k) ks))\<rparr>)"
proof (induction ks arbitrary: w)
  case Nil
  then show ?case by simp
next
  case (Cons k ks)
  show ?case
  proof (cases "throws e data k")
    case True
    with Cons.prems show ?thesis by (simp add: loop_body_eq)
  next
    case False
    with Cons.prems show ?thesis
      by (simp add: loop_body_eq Cons.IH [OF Cons.prems])
  qed
qed

lemma all_props_unfold:
  "all_props v = own_props v @ (case proto_of v of Some p \<Rightarrow> all_props p | None \<Rightarrow> [])"
  unfolding all_props_def by (subst chain.simps) (simp split: option.splits)

lemma set_uniq [simp]: "set (uniq xs) = set xs"
  by (induction xs rule: uniq.induct) auto

lemma set_for_in_keys: "set (for_in_keys v) = fst ` set (all_props v)"
  by (simp add: for_in_keys_def)

lemma show_nat_last: "last (show_nat n) = digit (n mod 10)"
  by (subst show_nat.simps) simp

lemma digit_in: "d < 10 \<Longrightarrow> digit d \<in> set ''0123456789''"
  unfolding digit_def by (rule nth_mem) simp

lemma show_nat_not_name [simp]:
  "show_nat i \<noteq> ''cardPaymentDetails''" "show_nat i \<noteq> ''notified''"
  "show_nat i \<noteq> ''cardHolderName''" "show_nat i \<noteq> ''__proto__''"
proof -
  have "digit (i mod 10) \<in> set ''0123456789''" by (rule digit_in) simp
  then have "last (show_nat i) \<in> set ''0123456789''" by (simp only: show_nat_last)
  then show "show_nat i \<noteq> ''cardPaymentDetails''" "show_nat i \<noteq> ''notified''"
    "show_nat i \<noteq> ''cardHolderName''" "show_nat i \<noteq> ''__proto__''" by auto
qed

lemma name_not_show_nat [simp]:
  "''cardPaymentDetails'' \<noteq> show_nat i" "''notified'' \<noteq> show_nat i"
  "''cardHolderName'' \<noteq> show_nat i" "''__proto__'' \<noteq> show_nat i"
  using show_nat_not_name [of i] by (auto simp del: show_nat_not_name)

lemma own_props_no_proto: "(''__proto__'', x) \<notin> set (own_props v)"
  by (cases v) auto

lemma all_props_no_proto: "(''__proto__'', x) \<notin> set (all_props v)"
proof (induction v rule: chain.induct)
  case (1 v)
  then show ?case
    by (subst all_props_unfold) (auto simp: own_props_no_proto split: option.splits)
qed

lemma proto_not_enumerated: "''__proto__'' \<notin> set (for_in_keys v)"
  by (auto simp: set_for_in_keys all_props_no_proto)

lemma map_of_own_props_obj:
  "map_of (own_props (JObj kvs)) k = (if k = ''__proto__'' then None else map_of kvs k)"
  by (induction kvs) auto

lemma all_props_str: "all_props (JStr s) = own_props (JStr s)"
  by (subst all_props_unfold) simp

lemma map_of_index_map:
  "map_of (map (\<lambda>i. (f i, g i)) xs) k = Some x \<Longrightarrow> \<exists>i. k = f i \<and> x = g i"
  by (induction xs) (auto split: if_splits)

lemma get_str_cases:
  "(\<exists>c. get (JStr s) k = JStr [c]) \<or> (\<exists>n. get (JStr s) k = JNum n) \<or> get (JStr s) k = JUndefined"
  by (auto simp: get_def all_props_str split: option.splits dest!: map_of_index_map)

lemma get_str_name [simp]:
  "get (JStr s) ''cardPaymentDetails'' = JUndefined"
  "get (JStr s) ''cardHolderName'' = JUndefined"
  by (auto simp: get_def all_props_str split: option.splits dest!: map_of_index_map)

lemma get_prim [simp]:
  "get JUndefined k = JUndefined" "get JNull k = JUndefined" "get (JBool b) k = JUndefined"
  "get (JNum n) k = JUndefined"
  by (simp_all add: get_def all_props_unfold [of JUndefined] all_props_unfold [of JNull]
      all_props_unfold [of "JBool b"] all_props_unfold [of "JNum n"])

lemma candidate_obj: "candidate data k \<Longrightarrow> \<exists>kvs. data = JObj kvs"
proof (cases data)
  case (JStr s)
  assume "candidate data k"
  then have "truthy (get (get (JStr s) k) ''cardPaymentDetails'')"
    by (simp add: candidate_def JStr)
  with get_str_cases [of s k] show ?thesis by auto
qed (auto simp: candidate_def)

lemma marked_idem [simp]: "marked (marked s) = marked s"
  by (cases s) (simp_all add: marked_def)

lemma child_update_marked:
  "child_update (JObj kvs) k [(''notified'', JBool True)] =
     JObj (AList.update k (marked (child (JObj kvs) k)) kvs)"
  by (auto simp: child_update_def marked_def split: option.splits jsval.splits)

lemma marked_rel_step:
  assumes r: "marked_rel M new data d"
  shows "\<exists>new'. marked_rel (insert k M) new' data (child_update d k [(''notified'', JBool True)])"
proof -
  from r obtain kvs kvs' where d: "data = JObj kvs" "d = JObj kvs'"
    and keys: "map fst kvs' = map fst kvs @ new" and new: "set new \<subseteq> M"
    and dis: "set new \<inter> set (map fst kvs) = {}"
    and m: "\<And>j. map_of kvs' j =
           (if j \<in> M then Some (marked (child data j)) else map_of kvs j)"
    unfolding marked_rel_def by blast
  let ?v = "marked (child d k)"
  have v: "?v = marked (child data k)"
    using m [of k] d by (simp split: option.splits)
  have cu: "child_update d k [(''notified'', JBool True)] = JObj (AList.update k ?v kvs')"
    using d by (simp add: child_update_marked)
  have "\<exists>new'. map fst (AList.update k ?v kvs') = map fst kvs @ new' \<and>
      set new' \<subseteq> insert k M \<and> set new' \<inter> set (map fst kvs) = {}"
  proof (cases "k \<in> set (map fst kvs')")
    case True
    then have "map fst (AList.update k ?v kvs') = map fst kvs @ new"
      by (simp add: update_keys keys)
    with new dis show ?thesis by blast
  next
    case False
    then have "map fst (AList.update k ?v kvs') = map fst kvs @ (new @ [k])"
      by (simp add: update_keys keys)
    moreover have "set (new @ [k]) \<subseteq> insert k M" using new by auto
    moreover have "set (new @ [k]) \<inter> set (map fst kvs) = {}"
      using dis False keys by auto
    ultimately show ?thesis by blast
  qed
  moreover have "map_of (AList.update k ?v kvs') j =
      (if j \<in> insert k M then Some (marked (child data j)) else map_of kvs j)" for j
    using m [of j] v by (simp add: update_conv')
  ultimately show ?thesis
    using cu d unfolding marked_rel_def by auto
qed

lemma marked_rel_fold:
  "marked_rel M new data d \<Longrightarrow>
   \<exists>new'. marked_rel (M \<union> {k \<in> set ks. marks e data k}) new' data
     (fold (mark_step e data) ks d)"
proof (induction ks arbitrary: M new d)
  case Nil
  then show ?case by auto
next
  case (Cons k ks)
  show ?case
  proof (cases "marks e data k")
    case True
    from marked_rel_step [OF Cons.prems, of k] obtain new1 where
      "marked_rel (insert k M) new1 data (child_update d k [(''notified'', JBool True)])"
      by blast
    from Cons.IH [OF this] obtain new' where
      "marked_rel (insert k M \<union> {j \<in> set ks. marks e data j}) new' data
         (fold (mark_step e data) ks (child_update d k [(''notified'', JBool True)]))"
      by blast
    moreover have "insert k M \<union> {j \<in> set ks. marks e data j} =
        M \<union> {j \<in> set (k # ks). marks e data j}"
      using True by auto
    moreover have "mark_step e data k d = child_update d k [(''notified'', JBool True)]"
      using True by (simp add: mark_step_def)
    ultimately show ?thesis by (auto simp only: fold_simps o_apply)
  next
    case False
    from Cons.IH [OF Cons.prems] obtain new' where
      "marked_rel (M \<union> {j \<in> set ks. marks e data j}) new' data (fold (mark_step e data) ks d)"
      by blast
    moreover have "M \<union> {j \<in> set ks. marks e data j} = M \<union> {j \<in> set (k # ks). marks e data j}"
      using False by auto
    moreover have "mark_step e data k d = d"
      using False by (simp add: mark_step_def)
    ultimately show ?thesis by (auto simp only: fold_simps o_apply)
  qed
qed

lemma fold_no_object:
  "(\<And>kvs. data \<noteq> JObj kvs) \<Longrightarrow> fold (mark_step e data) ks d = d"
proof (induction ks)
  case Nil
  then show ?case by simp
next
  case (Cons k ks)
  have "\<not> marks e data k"
    using Cons.prems candidate_obj [of data k] by (auto simp: marks_def)
  then have "mark_step e data k d = d" by (simp add: mark_step_def)
  moreover have "fold (mark_step e data) ks d = d" by (rule Cons.IH) (rule Cons.prems)
  ultimately show ?case by (simp only: fold_simps o_apply)
qed

lemma all_keys_unfold: "map fst (all_props v) = map fst (own_props v) @ inherited_keys v"
  by (subst all_props_unfold) (simp add: inherited_keys_def split: option.splits)

lemma get_obj:
  "get (JObj kvs) k =
     (case map_of (own_props (JObj kvs)) k of
        Some x \<Rightarrow> x
      | None \<Rightarrow> (case proto_of (JObj kvs) of Some p \<Rightarrow> get p k | None \<Rightarrow> JUndefined))"
proof (cases "proto_of (JObj kvs)")
  case None
  then have "all_props (JObj kvs) = own_props (JObj kvs)"
    by (subst all_props_unfold) simp
  with None show ?thesis
    by (simp add: get_def del: proto_of.simps split: option.splits)
next
  case (Some p)
  then obtain ps where p: "p = JObj ps"
    by (auto split: option.splits jsval.splits)
  from Some have "all_props (JObj kvs) = own_props (JObj kvs) @ all_props p"
    by (subst all_props_unfold) simp
  with Some p show ?thesis
    by (simp add: get_def map_add_def del: proto_of.simps own_props.simps split: option.splits)
qed

lemma own_keys_filter:
  "map fst (own_props (JObj kvs)) = filter (\<lambda>k. k \<noteq> ''__proto__'') (map fst kvs)"
  by (induction kvs) auto

lemma marked_rel_facts:
  assumes r: "marked_rel M new d d'" and p: "''__proto__'' \<notin> M"
  shows "child d' k = (if k \<in> M then marked (child d k) else child d k)"
    and "child_keys d' = child_keys d @ new"
    and "get d' k = (if k \<in> M then marked (child d k) else get d k)"
    and "map fst (own_props d') = map fst (own_props d) @ new"
    and "inherited_keys d' = inherited_keys d"
    and "set new \<inter> set (child_keys d) = {}"
proof -
  from r obtain kvs kvs' where d: "d = JObj kvs" "d' = JObj kvs'"
    and keys: "map fst kvs' = map fst kvs @ new" and new: "set new \<subseteq> M"
    and dis: "set new \<inter> set (map fst kvs) = {}"
    and m: "\<And>j. map_of kvs' j =
           (if j \<in> M then Some (marked (child d j)) else map_of kvs j)"
    unfolding marked_rel_def by blast
  show "set new \<inter> set (child_keys d) = {}" using dis d by simp
  show "child d' k = (if k \<in> M then marked (child d k) else child d k)"
    using m [of k] d by simp
  show "child_keys d' = child_keys d @ new" using keys d by simp
  have pr: "proto_of d' = proto_of d" using m [of "''__proto__''"] p d by simp
  then show "inherited_keys d' = inherited_keys d" by (simp add: inherited_keys_def)
  have "''__proto__'' \<notin> set new" using new p by auto
  then have "filter (\<lambda>k. k \<noteq> ''__proto__'') new = new" by (auto simp: filter_id_conv)
  then show "map fst (own_props d') = map fst (own_props d) @ new"
    using keys d by (simp only: own_keys_filter filter_append)
  have g': "get d' k =
      (case (if k = ''__proto__'' then None else map_of kvs' k) of
         Some x \<Rightarrow> x
       | None \<Rightarrow> (case proto_of d of Some p \<Rightarrow> get p k | None \<Rightarrow> JUndefined))"
    using pr unfolding d by (simp only: get_obj map_of_own_props_obj)
  have g: "get d k =
      (case (if k = ''__proto__'' then None else map_of kvs k) of
         Some x \<Rightarrow> x
       | None \<Rightarrow> (case proto_of d of Some p \<Rightarrow> get p k | None \<Rightarrow> JUndefined))"
    unfolding d by (simp only: get_obj map_of_own_props_obj)
  show "get d' k = (if k \<in> M then marked (child d k) else get d k)"
  proof (cases "k = ''__proto__''")
    case True
    with p show ?thesis unfolding g g' by simp
  next
    case False
    with m [of k] show ?thesis unfolding g g' by simp
  qed
qed

lemma fold_marks:
  assumes p: "''__proto__'' \<notin> set ks"
  shows "\<exists>new. set new \<subseteq> {k \<in> set ks. marks e d k} \<and>
     set new \<inter> set (child_keys d) = {} \<and>
     child_keys (fold (mark_step e d) ks d) = child_keys d @ new \<and>
     map fst (own_props (fold (mark_step e d) ks d)) = map fst (own_props d) @ new \<and>
     inherited_keys (fold (mark_step e d) ks d) = inherited_keys d \<and>
     (\<forall>k. child (fold (mark_step e d) ks d) k =
        (if k \<in> set ks \<and> marks e d k then marked (child d k) else child d k)) \<and>
     (\<forall>k. get (fold (mark_step e d) ks d) k =
        (if k \<in> set ks \<and> marks e d k then marked (child d k) else get d k))"
proof (cases "\<exists>kvs. d = JObj kvs")
  case True
  then have "marked_rel {} [] d d" by (auto simp: marked_rel_def)
  from marked_rel_fold [OF this, of ks e] obtain new where
    r: "marked_rel {k \<in> set ks. marks e d k} new d (fold (mark_step e d) ks d)" by auto
  then have n: "set new \<subseteq> {k \<in> set ks. marks e d k}" by (auto simp: marked_rel_def)
  have pm: "''__proto__'' \<notin> {k \<in> set ks. marks e d k}" using p by auto
  from marked_rel_facts [OF r pm] n show ?thesis by auto
next
  case False
  then have "\<not> marks e d k" for k using candidate_obj [of d k] by (auto simp: marks_def)
  with False show ?thesis by (simp add: fold_no_object)
qed

lemma start_sel [simp]: "db (start d) = d" "trace (start d) = []"
  by (simp_all add: start_def)

lemma for_in_keys_nullish: "nullish d \<Longrightarrow> for_in_keys d = []"
  by (auto simp: nullish_def for_in_keys_def all_props_unfold [of JUndefined]
      all_props_unfold [of JNull])

lemma block_eq:
  "block e d k =
     (if candidate d k then
        (case to_string e (card_holder d k) of
           Inl x \<Rightarrow> []
         | Inr name \<Rightarrow>
        (case send_result e k of
           Some err \<Rightarrow>
             [(k, Send (payload name) (Some err)),
              (k, ConsoleError ''Error sending notification:'' err)]
         | None \<Rightarrow>
             (case update_result e k of
                Some err \<Rightarrow>
                  [(k, Send (payload name) None),
                   (k, Update k [(''notified'', JBool True)] (Some err)),
                   (k, ConsoleError ''Error sending notification:'' err)]
              | None \<Rightarrow>
                  [(k, Send (payload name) None),
                   (k, Update k [(''notified'', JBool True)] None),
                   (k, ConsoleLog (''Notification sent for card: '' @ name))])))
      else [])"
proof (cases "to_string e (card_holder d k)")
  case (Inl x)
  then show ?thesis by (simp add: block_def)
next
  case (Inr name)
  then show ?thesis
    by (cases "send_result e k"; cases "update_result e k")
      (simp_all add: block_def try_send_def start_def)
qed

lemma block_tag: "(j, c) \<in> set (block e d k) \<Longrightarrow> j = k"
  by (cases "candidate d k"; cases "to_string e (card_holder d k)";
      cases "send_result e k"; cases "update_result e k")
    (auto simp: block_eq)

lemma in_blocks:
  "(j, c) \<in> set (concat (map (block e d) ks)) \<longleftrightarrow> j \<in> set ks \<and> (j, c) \<in> set (block e d j)"
  by (auto dest: block_tag)

lemma run_eq:
  assumes "once_result e = None"
  shows "sendNotifications e (start d) =
     (if \<exists>k\<in>set (for_in_keys d). throws e d k then Inl TypeError else Inr (),
      \<lparr>db = fold (mark_step e d) (reached e d) d,
       trace = concat (map (block e d) (reached e d))\<rparr>)"
proof (cases "nullish d")
  case True
  then have "for_in_keys d = []" by (rule for_in_keys_nullish)
  with assms show ?thesis
    by (simp add: sendNotifications_def reached_def start_def)
next
  case False
  with assms show ?thesis
    by (simp add: sendNotifications_def for_in_eq reached_def start_def)
qed

lemma run_rejected:
  "once_result e = Some err \<Longrightarrow> sendNotifications e (start d) = (Inl (Rejected err), start d)"
  by (simp add: sendNotifications_def)

lemma run_resolves:
  "fst (sendNotifications e (start d)) = Inr () \<longleftrightarrow>
     once_result e = None \<and> (\<forall>k\<in>set (for_in_keys d). \<not> throws e d k)"
  by (cases "once_result e") (auto simp: run_eq run_rejected)

lemma reached_all: "\<forall>k\<in>set (for_in_keys d). \<not> throws e d k \<Longrightarrow> reached e d = for_in_keys d"
  by (simp add: reached_def)

lemma reached_subset: "k \<in> set (reached e d) \<Longrightarrow> k \<in> set (for_in_keys d)"
  unfolding reached_def by (auto dest: set_takeWhileD)

lemma reached_no_throw: "k \<in> set (reached e d) \<Longrightarrow> \<not> throws e d k"
  unfolding reached_def by (auto dest: set_takeWhileD)

lemma proto_not_reached: "''__proto__'' \<notin> set (reached e d)"
  using reached_subset [of "''__proto__''" e d] proto_not_enumerated [of d] by blast

lemma run_trace:
  "trace (snd (sendNotifications e (start d))) =
     (if once_result e = None then concat (map (block e d) (reached e d)) else [])"
  by (cases "once_result e") (simp_all add: run_eq run_rejected)

lemma run_db:
  "db (snd (sendNotifications e (start d))) =
     (if once_result e = None then fold (mark_step e d) (reached e d) d else d)"
  by (cases "once_result e") (simp_all add: run_eq run_rejected)

lemma run_mem:
  "(j, c) \<in> set (trace (snd (sendNotifications e (start d)))) \<longleftrightarrow>
     once_result e = None \<and> j \<in> set (reached e d) \<and> (j, c) \<in> set (block e d j)"
proof (cases "once_result e = None")
  case True
  then show ?thesis by (simp only: run_trace in_blocks if_True simp_thms)
next
  case False
  then show ?thesis by (auto simp: run_trace)
qed

lemma run_store:
  "\<exists>new. set new \<subseteq> {k. marked_by e d k} \<and>
     set new \<inter> set (child_keys d) = {} \<and>
     child_keys (db (snd (sendNotifications e (start d)))) = child_keys d @ new \<and>
     map fst (own_props (db (snd (sendNotifications e (start d))))) =
       map fst (own_props d) @ new \<and>
     inherited_keys (db (snd (sendNotifications e (start d)))) = inherited_keys d"
proof (cases "once_result e = None")
  case True
  from fold_marks [of "reached e d" e d, OF proto_not_reached] obtain new where
    "set new \<subseteq> {k \<in> set (reached e d). marks e d k}"
    "set new \<inter> set (child_keys d) = {}"
    "child_keys (fold (mark_step e d) (reached e d) d) = child_keys d @ new"
    "map fst (own_props (fold (mark_step e d) (reached e d) d)) = map fst (own_props d) @ new"
    "inherited_keys (fold (mark_step e d) (reached e d) d) = inherited_keys d"
    by blast
  with True show ?thesis by (auto simp: run_db marked_by_def)
next
  case False
  then show ?thesis by (auto simp: run_db)
qed

lemma run_child:
  "child (db (snd (sendNotifications e (start d)))) k =
     (if marked_by e d k then marked (child d k) else child d k)"
  using fold_marks [of "reached e d" e d, OF proto_not_reached] by (auto simp: run_db marked_by_def)

lemma run_get:
  "get (db (snd (sendNotifications e (start d)))) k =
     (if marked_by e d k then marked (child d k) else get d k)"
  using fold_marks [of "reached e d" e d, OF proto_not_reached] by (auto simp: run_db marked_by_def)

lemma send_in_block:
  "(k, Send m r) \<in> set (block e d k) \<longleftrightarrow>
     candidate d k \<and> r = send_result e k \<and>
     (\<exists>name. to_string e (card_holder d k) = Inr name \<and> m = payload name)"
  by (cases "candidate d k"; cases "to_string e (card_holder d k)";
      cases "send_result e k"; cases "update_result e k")
    (auto simp: block_eq)

lemma update_in_block:
  "(k, Update j ch r) \<in> set (block e d k) \<longleftrightarrow>
     candidate d k \<and> j = k \<and> ch = [(''notified'', JBool True)] \<and>
     send_result e k = None \<and> r = update_result e k \<and>
     (\<exists>name. to_string e (card_holder d k) = Inr name)"
  by (cases "candidate d k"; cases "to_string e (card_holder d k)";
      cases "send_result e k"; cases "update_result e k")
    (auto simp: block_eq)

lemma block_not_candidate: "\<not> candidate d k \<Longrightarrow> block e d k = []"
  by (simp add: block_eq)


lemma update_follows_send_block: "update_follows_send (block e d k)"
  by (cases "candidate d k"; cases "to_string e (card_holder d k)";
      cases "send_result e k"; cases "update_result e k")
    (auto simp: update_follows_send_def block_eq nth_Cons' less_Suc_eq)

lemma update_follows_send_append:
  assumes a: "update_follows_send xs" and b: "update_follows_send ys"
  shows "update_follows_send (xs @ ys)"
  unfolding update_follows_send_def
proof (intro allI impI)
  fix i k j ch r
  assume i: "i < length (xs @ ys)" and u: "(xs @ ys) ! i = (k, Update j ch r)"
  show "j = k \<and> 0 < i \<and> (\<exists>m. (xs @ ys) ! (i - 1) = (k, Send m None))"
  proof (cases "i < length xs")
    case True
    with u have "xs ! i = (k, Update j ch r)" by (simp add: nth_append)
    with a True have "j = k \<and> 0 < i \<and> (\<exists>m. xs ! (i - 1) = (k, Send m None))"
      unfolding update_follows_send_def by blast
    moreover from True have "i - 1 < length xs" by arith
    ultimately show ?thesis by (simp add: nth_append)
  next
    case False
    with i u have l: "i - length xs < length ys" and "ys ! (i - length xs) = (k, Update j ch r)"
      by (simp_all add: nth_append)
    with b have *: "j = k \<and> 0 < i - length xs \<and> (\<exists>m. ys ! (i - length xs - 1) = (k, Send m None))"
      unfolding update_follows_send_def by blast
    then have "\<not> i - 1 < length xs" "i - 1 - length xs = i - length xs - 1" by arith+
    with * show ?thesis by (simp add: nth_append)
  qed
qed

lemma update_follows_send_blocks: "update_follows_send (concat (map (block e d) ks))"
proof (induction ks)
  case Nil
  show ?case by (simp add: update_follows_send_def)
next
  case (Cons k ks)
  then show ?case
    by (simp add: update_follows_send_append update_follows_send_block)
qed

lemma get_absent:
  assumes "''cardHolderName'' \<notin> set (for_in_keys v)"
  shows "get v ''cardHolderName'' = JUndefined"
proof -
  from assms have "map_of (all_props v) ''cardHolderName'' = None"
    by (simp add: set_for_in_keys map_of_eq_None_iff)
  then show ?thesis by (cases v) (simp_all add: get_def)
qed

lemma to_string_cong:
  "object_string e' = object_string e \<Longrightarrow> to_string e' v = to_string e v"
  by (cases v) simp_all

lemma reached_cong:
  assumes "object_string e' = object_string e"
  shows "reached e' d = reached e d"
  using assms by (simp add: reached_def throws_def to_string_cong [of e' e])

lemma blocks_agree:
  assumes "object_string e' = object_string e"
    and "send_result e' j = send_result e j" and "update_result e' j = update_result e j"
  shows "block e' d j = block e d j" and "marks e' d j = marks e d j"
  unfolding block_def try_send_def marks_def assms(2,3) to_string_cong [OF assms(1)]
  by (rule refl)+

lemma filter_other_block:
  "filter (\<lambda>(j, c). j \<noteq> k) (block e d i) = (if i \<noteq> k then block e d i else [])"
  by (cases "candidate d i"; cases "to_string e (card_holder d i)";
      cases "send_result e i"; cases "update_result e i")
    (auto simp: block_eq)

lemma filter_other_blocks:
  "filter (\<lambda>(j, c). j \<noteq> k) (concat (map (block e d) ks)) =
     concat (map (block e d) (filter (\<lambda>j. j \<noteq> k) ks))"
  by (induction ks) (simp_all add: filter_other_block)

lemma console_output_concat:
  "console_output (concat xss) = concat (map console_output xss)"
  by (induction xss) (simp_all add: console_output_def)

lemma console_output_block:
  "console_output (block e d k) =
     (if candidate d k then
        (case to_string e (card_holder d k) of
           Inl x \<Rightarrow> []
         | Inr name \<Rightarrow>
        (case send_result e k of
           Some err \<Rightarrow> [ConsoleError ''Error sending notification:'' err]
         | None \<Rightarrow>
             (case update_result e k of
                Some err \<Rightarrow> [ConsoleError ''Error sending notification:'' err]
              | None \<Rightarrow> [ConsoleLog (''Notification sent for card: '' @ name)])))
      else [])"
  by (cases "candidate d k"; cases "to_string e (card_holder d k)";
      cases "send_result e k"; cases "update_result e k")
    (auto simp: block_eq console_output_def is_console_def)

lemma child_marked_other:
  "f \<noteq> ''notified'' \<Longrightarrow> child (marked s) f = child s f"
  by (cases s) (simp_all add: marked_def update_conv')

lemma child_marked_notified: "child (marked s) ''notified'' = JBool True"
  by (cases s) (simp_all add: marked_def update_conv')

lemma get_marked_notified: "get (marked s) ''notified'' = JBool True"
  by (cases s)
    (simp_all add: marked_def get_obj map_of_own_props_obj update_conv' del: own_props.simps)

lemma marked_not_nullish [simp]: "\<not> nullish (marked s)"
  by (cases s) (simp_all add: marked_def nullish_def)

lemma marked_absent:
  "k \<notin> set (child_keys d) \<Longrightarrow> marked (child d k) = JObj [(''notified'', JBool True)]"
proof (cases d)
  case (JObj kvs)
  assume "k \<notin> set (child_keys d)"
  with JObj have "map_of kvs k = None" by (simp add: map_of_eq_None_iff)
  with JObj show ?thesis by (simp add: marked_def)
qed (simp_all add: marked_def)

lemma marked_by_enumerated: "marked_by e d k \<Longrightarrow> k \<in> set (for_in_keys d)"
  by (auto simp: marked_by_def dest: reached_subset)

lemma takeWhile_mem_iff:
  "k \<in> set (takeWhile P xs) \<longleftrightarrow>
     k \<in> set xs \<and> (\<forall>y\<in>set (takeWhile (\<lambda>x. x \<noteq> k) xs). P y) \<and> P k"
  by (induction xs) auto

lemma before_subset:
  "k \<in> set (takeWhile P xs) \<Longrightarrow> set (takeWhile (\<lambda>x. x \<noteq> k) xs) \<subseteq> set (takeWhile P xs)"
  by (induction xs) (auto split: if_splits)

lemma before_filter:
  "x \<noteq> k \<Longrightarrow>
   set (takeWhile (\<lambda>y. y \<noteq> k) (filter (\<lambda>j. j \<noteq> x) xs)) =
   set (takeWhile (\<lambda>y. y \<noteq> k) xs) - {x}"
proof (induction xs)
  case Nil
  show ?case by simp
next
  case (Cons a xs)
  then show ?case by (cases "a = x"; cases "a = k") (simp_all add: insert_Diff_if)
qed

lemma before_uniq:
  "set (takeWhile (\<lambda>y. y \<noteq> k) (uniq xs)) = set (takeWhile (\<lambda>y. y \<noteq> k) xs)"
proof (induction xs rule: uniq.induct)
  case 1
  show ?case by simp
next
  case (2 x xs)
  show ?case
  proof (cases "x = k")
    case True
    then show ?thesis by simp
  next
    case False
    with 2 show ?thesis by (auto simp: before_filter)
  qed
qed

lemma before_append:
  "set (takeWhile (\<lambda>y. y \<noteq> k) (xs @ ys)) =
     (if k \<in> set xs then set (takeWhile (\<lambda>y. y \<noteq> k) xs)
      else set xs \<union> set (takeWhile (\<lambda>y. y \<noteq> k) ys))"
  by (induction xs) auto

lemma reached_again:
  assumes os: "object_string e' = object_string e"
    and y: "y \<in> set (reached e d)"
  shows "\<not> throws e' (db (snd (sendNotifications e (start d)))) y"
proof (cases "marked_by e d y")
  case True
  then have "get (db (snd (sendNotifications e (start d)))) y = marked (child d y)"
    by (simp add: run_get)
  then show ?thesis by (simp add: throws_def candidate_def get_marked_notified)
next
  case False
  then have "get (db (snd (sendNotifications e (start d)))) y = get d y"
    by (simp add: run_get)
  then have "throws e' (db (snd (sendNotifications e (start d)))) y = throws e d y"
    by (simp add: throws_def candidate_def card_holder_def to_string_cong [OF os])
  with reached_no_throw [OF y] show ?thesis by simp
qed

lemma reached_next_run:
  assumes os: "object_string e' = object_string e"
    and k: "k \<in> set (reached e d)" and nm: "\<not> marked_by e d k"
  shows "k \<in> set (reached e' (db (snd (sendNotifications e (start d)))))"
proof -
  let ?d1 = "db (snd (sendNotifications e (start d)))"
  let ?A = "map fst (own_props d)" and ?I = "inherited_keys d"
  from run_store [of e d] obtain new where
    n: "set new \<subseteq> {k. marked_by e d k}"
      "map fst (own_props ?d1) = ?A @ new" "inherited_keys ?d1 = ?I"
    by blast
  have k1: "for_in_keys d = uniq (?A @ ?I)"
    by (simp add: for_in_keys_def all_keys_unfold)
  have k2: "for_in_keys ?d1 = uniq (?A @ new @ ?I)"
    by (simp add: for_in_keys_def all_keys_unfold [of ?d1] n)
  have kin: "k \<in> set (?A @ ?I)"
    using reached_subset [OF k] by (simp add: k1)
  have knew: "k \<notin> set new" using n(1) nm by auto
  have r1: "set (takeWhile (\<lambda>y. y \<noteq> k) (?A @ ?I)) \<subseteq> set (reached e d)"
    using before_subset [of k "\<lambda>k. \<not> throws e d k" "for_in_keys d"] k
    by (simp add: reached_def k1 before_uniq)
  have new_r: "set new \<subseteq> set (reached e d)"
    using n(1) by (auto simp: marked_by_def)
  have "set (takeWhile (\<lambda>y. y \<noteq> k) (?A @ new @ ?I)) \<subseteq>
        set (takeWhile (\<lambda>y. y \<noteq> k) (?A @ ?I)) \<union> set new"
    using knew by (auto simp: before_append split: if_splits)
  with r1 new_r have b2: "set (takeWhile (\<lambda>y. y \<noteq> k) (?A @ new @ ?I)) \<subseteq> set (reached e d)"
    by blast
  have "k \<in> set (for_in_keys ?d1)" using kin by (auto simp: k2)
  moreover have "\<forall>y\<in>set (takeWhile (\<lambda>x. x \<noteq> k) (for_in_keys ?d1)). \<not> throws e' ?d1 y"
    using b2 reached_again [OF os] by (auto simp: k2 before_uniq)
  moreover have "\<not> throws e' ?d1 k" using reached_again [OF os k] .
  ultimately show ?thesis
    unfolding reached_def by (subst takeWhile_mem_iff) blast
qed

section \<open>Which sessions are dispatched\<close>




section \<open>No mark before a successful send\<close>

text \<open>
  C2. In the trace of any run, an update is always the call right after a send that
  resolved, made in the same iteration and for the session id of that iteration; and the
  stored record of a session whose send is rejected, and what the script reads for it, is
  what it was before the run.
\<close>

theorem update_only_after_successful_send:
  "(\<forall>i<length (trace (snd (sendNotifications e (start d)))). \<forall>k j ch r.
      trace (snd (sendNotifications e (start d))) ! i = (k, Update j ch r) \<longrightarrow>
        j = k \<and> 0 < i \<and>
        (\<exists>m. trace (snd (sendNotifications e (start d))) ! (i - 1) = (k, Send m None))) \<and>
   (\<forall>k. send_result e k \<noteq> None \<longrightarrow>
      child (db (snd (sendNotifications e (start d)))) k = child d k \<and>
      get (db (snd (sendNotifications e (start d)))) k = get d k)"
proof -
  have "update_follows_send (trace (snd (sendNotifications e (start d))))"
    by (simp add: run_trace update_follows_send_blocks) (simp add: update_follows_send_def)
  moreover have "\<forall>k. send_result e k \<noteq> None \<longrightarrow>
      child (db (snd (sendNotifications e (start d)))) k = child d k \<and>
      get (db (snd (sendNotifications e (start d)))) k = get d k"
    by (simp add: run_child run_get marked_by_def marks_def)
  ultimately show ?thesis unfolding update_follows_send_def by blast
qed

theorem update_only_after_successful_send_witness:
  "trace (snd (sendNotifications
         \<lparr>once_result = None,
          send_result = map_of [(''s1'', JsError ''unavailable'')],
          update_result = map_of [],
          object_string = plain_object_string\<rparr>
         (start (JObj [(''s1'',
               JObj
                 [(''cardPaymentDetails'', JObj [(''cardHolderName'', JStr ''Alice'')])]),
              (''s2'',
               JObj
                 [(''cardPaymentDetails'', JObj [(''cardHolderName'', JStr ''Bob'')])])]))))
     ! 3
     = (''s2'', Update ''s2'' [(''notified'', JBool True)] None)
   \<and> trace (snd (sendNotifications
            \<lparr>once_result = None,
             send_result = map_of [(''s1'', JsError ''unavailable'')],
             update_result = map_of [],
             object_string = plain_object_string\<rparr>
            (start (JObj [(''s1'',
                  JObj [(''cardPaymentDetails'',
                      JObj [(''cardHolderName'', JStr ''Alice'')])]),
                 (''s2'',
                  JObj [(''cardPaymentDetails'',
                      JObj [(''cardHolderName'', JStr ''Bob'')])])]))))
        ! 2
        = (''s2'',
           Send
             \<lparr>notification = \<lparr>title = ''New Card Added'', body = ''Cardholder: Bob''\<rparr>,
              topic = ''admin''\<rparr>
             None)
   \<and> child
        (db (snd (sendNotifications
              \<lparr>once_result = None,
               send_result = map_of [(''s1'', JsError ''unavailable'')],
               update_result = map_of [],
               object_string = plain_object_string\<rparr>
              (start (JObj [(''s1'',
                    JObj [(''cardPaymentDetails'',
                        JObj [(''cardHolderName'', JStr ''Alice'')])]),
                   (''s2'',
                    JObj [(''cardPaymentDetails'',
                        JObj [(''cardHolderName'', JStr ''Bob'')])])])))))
        ''s1''
        = JObj [(''cardPaymentDetails'', JObj [(''cardHolderName'', JStr ''Alice'')])]"
  using update_only_after_successful_send
    [of "\<lparr>once_result = None,
          send_result = map_of [(''s1'', JsError ''unavailable'')],
          update_result = map_of [],
          object_string = plain_object_string\<rparr>"
        "JObj [(''s1'',
             JObj [(''cardPaymentDetails'', JObj [(''cardHolderName'', JStr ''Alice'')])]),
            (''s2'',
             JObj [(''cardPaymentDetails'', JObj [(''cardHolderName'', JStr ''Bob'')])])]"]
  by (simp add: sendNotifications_def loop_body_def get_prop_def nullish_def try_send_def
      Let_def child_update_def get_def for_in_keys_def all_props_def chain.simps
      console_output_def is_console_def)

section \<open>A failed mark leaves the session a candidate\<close>

text \<open>
  C3. When the send for a session resolved and its update is rejected, the stored record
  of the session, and what the script reads for it, is unchanged, so its \<^verbatim>\<open>notified\<close> is still
  not \<^verbatim>\<open>true\<close>, and a following run that fetches the stored value sends the same message for
  the same session again.
\<close>

theorem mark_failure_leaves_candidate:
  assumes "once_result e' = None" and "object_string e' = object_string e"
    and "(k, Send m None) \<in> set (trace (snd (sendNotifications e (start d))))"
    and "update_result e k = Some err"
  shows "(k, Update k [(''notified'', JBool True)] (Some err))
           \<in> set (trace (snd (sendNotifications e (start d)))) \<and>
         child (db (snd (sendNotifications e (start d)))) k = child d k \<and>
         get (db (snd (sendNotifications e (start d)))) k = get d k \<and>
         get (get (db (snd (sendNotifications e (start d)))) k) ''notified'' \<noteq> JBool True \<and>
         (k, Send m (send_result e' k)) \<in> set (trace (snd (sendNotifications e'
            (start (db (snd (sendNotifications e (start d))))))))"
proof -
  let ?d1 = "db (snd (sendNotifications e (start d)))"
  from assms(3) have o: "once_result e = None" and r: "k \<in> set (reached e d)"
    and b: "(k, Send m None) \<in> set (block e d k)"
    by (simp_all add: run_mem)
  from b obtain name where c: "candidate d k" and s: "send_result e k = None"
    and t: "to_string e (card_holder d k) = Inr name" and m: "m = payload name"
    by (auto simp: send_in_block)
  have "(k, Update k [(''notified'', JBool True)] (Some err)) \<in> set (block e d k)"
    using c s t assms(4) by (simp add: update_in_block)
  then have upd: "(k, Update k [(''notified'', JBool True)] (Some err))
      \<in> set (trace (snd (sendNotifications e (start d))))"
    using o r by (simp add: run_mem)
  have nm: "\<not> marked_by e d k" using assms(4) by (simp add: marked_by_def marks_def)
  then have same: "child ?d1 k = child d k" "get ?d1 k = get d k"
    by (simp_all add: run_child run_get)
  have c1: "candidate ?d1 k" using c by (simp add: candidate_def same)
  have t1: "to_string e' (card_holder ?d1 k) = Inr name"
    using t by (simp add: card_holder_def same to_string_cong [OF assms(2)])
  have "(k, Send m (send_result e' k)) \<in> set (block e' ?d1 k)"
    using c1 t1 m by (simp add: send_in_block)
  moreover have "k \<in> set (reached e' ?d1)"
    using assms(2) r nm by (rule reached_next_run)
  ultimately have "(k, Send m (send_result e' k))
      \<in> set (trace (snd (sendNotifications e' (start ?d1))))"
    using assms(1) by (simp add: run_mem)
  with upd same c show ?thesis by (simp add: candidate_def)
qed

theorem mark_failure_leaves_candidate_witness:
  "child
     (db (snd (sendNotifications
           \<lparr>once_result = None,
            send_result = map_of [],
            update_result = map_of [(''s1'', JsError ''denied'')],
            object_string = plain_object_string\<rparr>
           (start (JObj [(''s1'',
                 JObj
                   [(''cardPaymentDetails'', JObj [(''cardHolderName'', JStr ''Alice'')]),
                    (''notified'', JBool False)])])))))
     ''s1''
     = JObj [(''cardPaymentDetails'', JObj [(''cardHolderName'', JStr ''Alice'')]),
          (''notified'', JBool False)]
   \<and> (''s1'',
       Send
         \<lparr>notification = \<lparr>title = ''New Card Added'', body = ''Cardholder: Alice''\<rparr>,
          topic = ''admin''\<rparr>
         None)
        \<in> set (trace (snd (sendNotifications
                  \<lparr>once_result = None,
                   send_result = map_of [],
                   update_result = map_of [],
                   object_string = plain_object_string\<rparr>
                  (start (db (snd (sendNotifications
                          \<lparr>once_result = None,
                           send_result = map_of [],
                           update_result = map_of [(''s1'', JsError ''denied'')],
                           object_string = plain_object_string\<rparr>
                          (start (JObj [(''s1'',
                                JObj [(''cardPaymentDetails'',
                                    JObj [(''cardHolderName'', JStr ''Alice'')]),
                                   (''notified'', JBool False)])])))))))))"
  using mark_failure_leaves_candidate
    [of "\<lparr>once_result = None,
          send_result = map_of [],
          update_result = map_of [],
          object_string = plain_object_string\<rparr>"
        "\<lparr>once_result = None,
          send_result = map_of [],
          update_result = map_of [(''s1'', JsError ''denied'')],
          object_string = plain_object_string\<rparr>"
        "''s1''"
        "\<lparr>notification = \<lparr>title = ''New Card Added'', body = ''Cardholder: Alice''\<rparr>,
          topic = ''admin''\<rparr>"
        "JObj [(''s1'',
             JObj [(''cardPaymentDetails'', JObj [(''cardHolderName'', JStr ''Alice'')]),
                (''notified'', JBool False)])]"
        "JsError ''denied''"]
  by (simp add: sendNotifications_def loop_body_def get_prop_def nullish_def try_send_def
      Let_def child_update_def get_def for_in_keys_def all_props_def chain.simps
      console_output_def is_console_def)

section \<open>Failures stay with their candidate\<close>

text \<open>
  C4. Take two runs on the same stored value whose services answer alike for every session
  but \<open>k\<close>. Both end the same way, and neither with the error of a service: no answer of a
  send or an update ends a run, which after a successful fetch resolves unless a TypeError
  of line 24 or line 29 ends it. The two runs make the same calls, in the same order, in
  every iteration other than that of \<open>k\<close>, and leave every other session with the same
  stored record.
\<close>

theorem failures_are_isolated:
  assumes "once_result e = None" and "once_result e' = None"
    and "object_string e' = object_string e"
    and "\<forall>j. j \<noteq> k \<longrightarrow> send_result e' j = send_result e j \<and>
                        update_result e' j = update_result e j"
  shows "fst (sendNotifications e' (start d)) = fst (sendNotifications e (start d)) \<and>
     (\<forall>x. fst (sendNotifications e (start d)) \<noteq> Inl (Rejected x)) \<and>
     filter (\<lambda>(j, c). j \<noteq> k) (trace (snd (sendNotifications e' (start d)))) =
     filter (\<lambda>(j, c). j \<noteq> k) (trace (snd (sendNotifications e (start d)))) \<and>
     (\<forall>j. j \<noteq> k \<longrightarrow>
        child (db (snd (sendNotifications e' (start d)))) j =
        child (db (snd (sendNotifications e (start d)))) j \<and>
        get (db (snd (sendNotifications e' (start d)))) j =
        get (db (snd (sendNotifications e (start d)))) j)"
proof -
  have th: "throws e' d j = throws e d j" for j
    using assms(3) by (simp add: throws_def to_string_cong [of e' e])
  have re: "reached e' d = reached e d" using assms(3) by (rule reached_cong)
  have ok: "fst (sendNotifications e' (start d)) = fst (sendNotifications e (start d))"
    using assms(1,2) by (simp add: run_eq th)
  have ag: "block e' d j = block e d j" "marks e' d j = marks e d j" if "j \<noteq> k" for j
    using assms(3,4) that by (simp_all add: blocks_agree [of e' e j])
  have "map (block e' d) (filter (\<lambda>j. j \<noteq> k) (reached e d)) =
        map (block e d) (filter (\<lambda>j. j \<noteq> k) (reached e d))"
    by (rule map_cong [OF refl]) (simp add: ag)
  then have tr: "filter (\<lambda>(j, c). j \<noteq> k) (trace (snd (sendNotifications e' (start d)))) =
     filter (\<lambda>(j, c). j \<noteq> k) (trace (snd (sendNotifications e (start d))))"
    using assms(1,2) by (simp only: run_trace re filter_other_blocks simp_thms if_True)
  have "child (db (snd (sendNotifications e' (start d)))) j =
        child (db (snd (sendNotifications e (start d)))) j \<and>
        get (db (snd (sendNotifications e' (start d)))) j =
        get (db (snd (sendNotifications e (start d)))) j" if "j \<noteq> k" for j
    using assms(1,2) that by (simp add: run_child run_get marked_by_def re ag)
  moreover have "\<forall>x. fst (sendNotifications e (start d)) \<noteq> Inl (Rejected x)"
    using assms(1) by (simp add: run_eq)
  ultimately show ?thesis using ok tr by blast
qed

theorem failures_are_isolated_witness:
  "fst (sendNotifications
       \<lparr>once_result = None,
        send_result = map_of [(''s1'', JsError ''unavailable'')],
        update_result = map_of [],
        object_string = plain_object_string\<rparr>
       (start (JObj [(''s1'',
             JObj [(''cardPaymentDetails'', JObj [(''cardHolderName'', JStr ''Alice'')])]),
            (''s2'',
             JObj [(''cardPaymentDetails'', JObj [(''cardHolderName'', JStr ''Bob'')])])])))
     = Inr ()
   \<and> filter (\<lambda>(j, c). j \<noteq> ''s1'') (trace (snd (sendNotifications
              \<lparr>once_result = None,
               send_result = map_of [(''s1'', JsError ''unavailable'')],
               update_result = map_of [],
               object_string = plain_object_string\<rparr>
              (start (JObj [(''s1'',
                    JObj [(''cardPaymentDetails'',
                        JObj [(''cardHolderName'', JStr ''Alice'')])]),
                   (''s2'',
                    JObj [(''cardPaymentDetails'',
                        JObj [(''cardHolderName'', JStr ''Bob'')])])])))))
        = filter (\<lambda>(j, c). j \<noteq> ''s1'') (trace (snd (sendNotifications
                  \<lparr>once_result = None,
                   send_result = map_of [],
                   update_result = map_of [],
                   object_string = plain_object_string\<rparr>
                  (start (JObj [(''s1'',
                        JObj [(''cardPaymentDetails'',
                            JObj [(''cardHolderName'', JStr ''Alice'')])]),
                       (''s2'',
                        JObj [(''cardPaymentDetails'',
                            JObj [(''cardHolderName'', JStr ''Bob'')])])])))))
   \<and> child
        (db (snd (sendNotifications
              \<lparr>once_result = None,
               send_result = map_of [(''s1'', JsError ''unavailable'')],
               update_result = map_of [],
               object_string = plain_object_string\<rparr>
              (start (JObj [(''s1'',
                    JObj [(''cardPaymentDetails'',
                        JObj [(''cardHolderName'', JStr ''Alice'')])]),
                   (''s2'',
                    JObj [(''cardPaymentDetails'',
                        JObj [(''cardHolderName'', JStr ''Bob'')])])])))))
        ''s2''
        = child
            (db (snd (sendNotifications
                  \<lparr>once_result = None,
                   send_result = map_of [],
                   update_result = map_of [],
                   object_string = plain_object_string\<rparr>
                  (start (JObj [(''s1'',
                        JObj [(''cardPaymentDetails'',
                            JObj [(''cardHolderName'', JStr ''Alice'')])]),
                       (''s2'',
                        JObj [(''cardPaymentDetails'',
                            JObj [(''cardHolderName'', JStr ''Bob'')])])])))))
            ''s2''"
  using failures_are_isolated
    [of "\<lparr>once_result = None,
          send_result = map_of [],
          update_result = map_of [],
          object_string = plain_object_string\<rparr>"
        "\<lparr>once_result = None,
          send_result = map_of [(''s1'', JsError ''unavailable'')],
          update_result = map_of [],
          object_string = plain_object_string\<rparr>"
        "''s1''"
        "JObj [(''s1'',
             JObj [(''cardPaymentDetails'', JObj [(''cardHolderName'', JStr ''Alice'')])]),
            (''s2'',
             JObj [(''cardPaymentDetails'', JObj [(''cardHolderName'', JStr ''Bob'')])])]"]
  by (simp add: sendNotifications_def loop_body_def get_prop_def nullish_def try_send_def
      Let_def child_update_def get_def for_in_keys_def all_props_def chain.simps
      console_output_def is_console_def)

section \<open>A failed fetch\<close>

text \<open>
  C5. When \<^verbatim>\<open>ref.once("value")\<close> is rejected, the run ends with that rejection and the
  world is as it was: no send, no update, no log line, and the stored value untouched.
\<close>

theorem fetch_failure_aborts:
  "once_result e = Some err \<Longrightarrow> sendNotifications e w = (Inl (Rejected err), w)"
  by (simp add: sendNotifications_def)

theorem fetch_failure_aborts_witness:
  "sendNotifications
     \<lparr>once_result = Some (JsError ''offline''),
      send_result = map_of [],
      update_result = map_of [],
      object_string = plain_object_string\<rparr>
     (start (JObj [(''s1'',
           JObj [(''cardPaymentDetails'', JObj [(''cardHolderName'', JStr ''Alice'')])])]))
     = (Inl (Rejected (JsError ''offline'')),
        start (JObj [(''s1'',
              JObj
                [(''cardPaymentDetails'', JObj [(''cardHolderName'', JStr ''Alice'')])])]))"
  using fetch_failure_aborts
    [of "\<lparr>once_result = Some (JsError ''offline''),
          send_result = map_of [],
          update_result = map_of [],
          object_string = plain_object_string\<rparr>"
        "JsError ''offline''"]
  by simp

section \<open>How a failed mark is logged\<close>

text \<open>
  C6, as the code logs it. When the send for a session resolved and its update is rejected
  with \<open>err\<close>, the \<^verbatim>\<open>catch\<close> block writes \<^verbatim>\<open>console.error("Error sending notification:", err)\<close>,
  and the console output of the run is the same as that of the run in which the send for
  that session is rejected with \<open>err\<close> instead: the two failures are told apart only by
  the error the service reported.
\<close>

theorem mark_failure_logged_like_send_failure:
  assumes "(k, Send m None) \<in> set (trace (snd (sendNotifications e (start d))))"
    and "update_result e k = Some err"
  shows "(k, ConsoleError ''Error sending notification:'' err)
           \<in> set (trace (snd (sendNotifications e (start d)))) \<and>
         console_output (trace (snd (sendNotifications e (start d)))) =
         console_output (trace (snd (sendNotifications
           (e\<lparr>send_result := (send_result e)(k \<mapsto> err)\<rparr>) (start d))))"
proof -
  let ?e' = "e\<lparr>send_result := (send_result e)(k \<mapsto> err)\<rparr>"
  from assms(1) have o: "once_result e = None" and r: "k \<in> set (reached e d)"
    and b: "(k, Send m None) \<in> set (block e d k)"
    by (simp_all add: run_mem)
  from b obtain name where c: "candidate d k" and s: "send_result e k = None"
    and t: "to_string e (card_holder d k) = Inr name"
    by (auto simp: send_in_block)
  have "(k, ConsoleError ''Error sending notification:'' err) \<in> set (block e d k)"
    using c s t assms(2) by (simp add: block_eq)
  then have logged: "(k, ConsoleError ''Error sending notification:'' err)
      \<in> set (trace (snd (sendNotifications e (start d))))"
    using o r by (simp add: run_mem)
  have ts: "to_string ?e' v = to_string e v" for v by (rule to_string_cong) simp
  have re: "reached ?e' d = reached e d" by (rule reached_cong) simp
  have "console_output (block e d j) = console_output (block ?e' d j)" for j
    using s assms(2) by (cases "to_string e (card_holder d j)")
      (auto simp: console_output_block ts split: option.splits)
  then have "map console_output (map (block e d) (reached e d)) =
             map console_output (map (block ?e' d) (reached e d))"
    by simp
  then have "console_output (concat (map (block e d) (reached e d))) =
             console_output (concat (map (block ?e' d) (reached e d)))"
    by (simp only: console_output_concat)
  then have "console_output (trace (snd (sendNotifications e (start d)))) =
         console_output (trace (snd (sendNotifications ?e' (start d))))"
    using o by (simp add: run_trace re)
  with logged show ?thesis by simp
qed

theorem mark_failure_logged_like_send_failure_witness:
  "(''s1'', ConsoleError ''Error sending notification:'' (JsError ''unavailable''))
     \<in> set (trace (snd (sendNotifications
               \<lparr>once_result = None,
                send_result = map_of [],
                update_result = map_of [(''s1'', JsError ''unavailable'')],
                object_string = plain_object_string\<rparr>
               (start (JObj [(''s1'',
                     JObj [(''cardPaymentDetails'',
                         JObj [(''cardHolderName'', JStr ''Alice'')]),
                        (''notified'', JBool False)])])))))
   \<and> console_output (trace (snd (sendNotifications
              \<lparr>once_result = None,
               send_result = map_of [],
               update_result = map_of [(''s1'', JsError ''unavailable'')],
               object_string = plain_object_string\<rparr>
              (start (JObj [(''s1'',
                    JObj [(''cardPaymentDetails'',
                        JObj [(''cardHolderName'', JStr ''Alice'')]),
                       (''notified'', JBool False)])])))))
        = console_output (trace (snd (sendNotifications
                  \<lparr>once_result = None,
                   send_result = map_of [(''s1'', JsError ''unavailable'')],
                   update_result = map_of [(''s1'', JsError ''unavailable'')],
                   object_string = plain_object_string\<rparr>
                  (start (JObj [(''s1'',
                        JObj [(''cardPaymentDetails'',
                            JObj [(''cardHolderName'', JStr ''Alice'')]),
                           (''notified'', JBool False)])])))))"
  using mark_failure_logged_like_send_failure
    [of "''s1''"
        "\<lparr>notification = \<lparr>title = ''New Card Added'', body = ''Cardholder: Alice''\<rparr>,
          topic = ''admin''\<rparr>"
        "\<lparr>once_result = None,
          send_result = map_of [],
          update_result = map_of [(''s1'', JsError ''unavailable'')],
          object_string = plain_object_string\<rparr>"
        "JObj [(''s1'',
             JObj [(''cardPaymentDetails'', JObj [(''cardHolderName'', JStr ''Alice'')]),
                (''notified'', JBool False)])]"
        "JsError ''unavailable''"]
  by (simp add: sendNotifications_def loop_body_def get_prop_def nullish_def try_send_def
      Let_def child_update_def get_def for_in_keys_def all_props_def chain.simps
      console_output_def is_console_def)

text \<open>
  C6 as stated asks for a log line that tells a failed mark from a failed send and names
  the session. For the store \<^verbatim>\<open>{s1: {cardPaymentDetails: {cardHolderName: "Alice"}, notified: false}}\<close>
  the console output is the same single line when the update is rejected and when the send
  is rejected with the same error, and the same again when the session is \<^verbatim>\<open>s2\<close> instead of
  \<^verbatim>\<open>s1\<close>.
\<close>

theorem mark_failure_log_counterexample:
  "console_output (trace (snd (sendNotifications
           \<lparr>once_result = None,
            send_result = map_of [],
            update_result = map_of [(''s1'', JsError ''unavailable'')],
            object_string = plain_object_string\<rparr>
           (start (JObj [(''s1'',
                 JObj
                   [(''cardPaymentDetails'', JObj [(''cardHolderName'', JStr ''Alice'')]),
                    (''notified'', JBool False)])])))))
     = [ConsoleError ''Error sending notification:'' (JsError ''unavailable'')]
   \<and> console_output (trace (snd (sendNotifications
              \<lparr>once_result = None,
               send_result = map_of [(''s1'', JsError ''unavailable'')],
               update_result = map_of [],
               object_string = plain_object_string\<rparr>
              (start (JObj [(''s1'',
                    JObj [(''cardPaymentDetails'',
                        JObj [(''cardHolderName'', JStr ''Alice'')]),
                       (''notified'', JBool False)])])))))
        = [ConsoleError ''Error sending notification:'' (JsError ''unavailable'')]
   \<and> console_output (trace (snd (sendNotifications
              \<lparr>once_result = None,
               send_result = map_of [],
               update_result = map_of [(''s2'', JsError ''unavailable'')],
               object_string = plain_object_string\<rparr>
              (start (JObj [(''s2'',
                    JObj [(''cardPaymentDetails'',
                        JObj [(''cardHolderName'', JStr ''Alice'')]),
                       (''notified'', JBool False)])])))))
        = [ConsoleError ''Error sending notification:'' (JsError ''unavailable'')]"
  by (simp add: sendNotifications_def loop_body_def get_prop_def nullish_def try_send_def
      Let_def child_update_def get_def for_in_keys_def all_props_def chain.simps
      console_output_def is_console_def)

section \<open>The notification payload\<close>

text \<open>
  C7. Every message a run passes to \<^verbatim>\<open>messaging.send\<close> has the title \<^verbatim>\<open>New Card Added\<close>, the
  body \<^verbatim>\<open>Cardholder: \<close> followed by the text of \<^verbatim>\<open>session.cardPaymentDetails.cardHolderName\<close>
  for the session of that iteration, and the topic \<^verbatim>\<open>admin\<close>; nothing else of the session
  enters it.
\<close>

theorem payload_is_title_name_topic:
  "\<forall>(k, c)\<in>set (trace (snd (sendNotifications e (start d)))). \<forall>m r. c = Send m r \<longrightarrow>
     (\<exists>name.
        to_string e (get (get (get d k) ''cardPaymentDetails'') ''cardHolderName'') = Inr name \<and>
        m = \<lparr>notification = \<lparr>title = ''New Card Added'', body = ''Cardholder: '' @ name\<rparr>,
             topic = ''admin''\<rparr>)"
  by (auto simp: run_mem send_in_block payload_def card_holder_def)

theorem payload_is_title_name_topic_witness:
  "(''s1'',
    Send
      \<lparr>notification = \<lparr>title = ''New Card Added'', body = ''Cardholder: Alice''\<rparr>,
       topic = ''admin''\<rparr>
      None)
     \<in> set (trace (snd (sendNotifications
               \<lparr>once_result = None,
                send_result = map_of [],
                update_result = map_of [],
                object_string = plain_object_string\<rparr>
               (start (JObj [(''s1'',
                     JObj [(''cardPaymentDetails'',
                         JObj [(''cardHolderName'', JStr ''Alice'')]),
                        (''notified'', JBool False)])])))))"
  using payload_is_title_name_topic
    [of "\<lparr>once_result = None,
          send_result = map_of [],
          update_result = map_of [],
          object_string = plain_object_string\<rparr>"
        "JObj [(''s1'',
             JObj [(''cardPaymentDetails'', JObj [(''cardHolderName'', JStr ''Alice'')]),
                (''notified'', JBool False)])]"]
  by (simp add: sendNotifications_def loop_body_def get_prop_def nullish_def try_send_def
      Let_def child_update_def get_def for_in_keys_def all_props_def chain.simps
      console_output_def is_console_def)

section \<open>The only write sets notified to true\<close>

text \<open>
  C8, as the code writes. A run deletes no child of the stored value. A child it creates is
  a key the loop visits and holds \<^verbatim>\<open>notified: true\<close> and nothing else; it creates none when
  every key the loop visits is a child of the stored value. In every child, every
  field other than \<^verbatim>\<open>notified\<close> stays as it was, and \<^verbatim>\<open>notified\<close> stays as it was or becomes
  \<^verbatim>\<open>true\<close>. A session for which the script reads \<^verbatim>\<open>notified\<close> as \<^verbatim>\<open>true\<close> is left as it is
  and no call is made for it. Every update of the trace is for a key the loop visits and
  writes \<^verbatim>\<open>{notified: true}\<close>.
\<close>

theorem store_only_gains_notified_true:
  "set (child_keys d) \<subseteq> set (child_keys (db (snd (sendNotifications e (start d))))) \<and>
   (\<forall>k\<in>set (child_keys (db (snd (sendNotifications e (start d))))).
      k \<notin> set (child_keys d) \<longrightarrow>
      k \<in> set (for_in_keys d) \<and>
      child (db (snd (sendNotifications e (start d)))) k = JObj [(''notified'', JBool True)]) \<and>
   (set (for_in_keys d) \<subseteq> set (child_keys d) \<longrightarrow>
      set (child_keys (db (snd (sendNotifications e (start d))))) = set (child_keys d)) \<and>
   (\<forall>k f. f \<noteq> ''notified'' \<longrightarrow>
      child (child (db (snd (sendNotifications e (start d)))) k) f = child (child d k) f) \<and>
   (\<forall>k. child (child (db (snd (sendNotifications e (start d)))) k) ''notified'' =
          child (child d k) ''notified'' \<or>
        child (child (db (snd (sendNotifications e (start d)))) k) ''notified'' = JBool True) \<and>
   (\<forall>k. get (get d k) ''notified'' = JBool True \<longrightarrow>
      child (db (snd (sendNotifications e (start d)))) k = child d k \<and>
      (\<forall>c. (k, c) \<notin> set (trace (snd (sendNotifications e (start d)))))) \<and>
   (\<forall>(k, c)\<in>set (trace (snd (sendNotifications e (start d)))). \<forall>j ch r.
      c = Update j ch r \<longrightarrow> j \<in> set (for_in_keys d) \<and> ch = [(''notified'', JBool True)])"
proof -
  let ?d1 = "db (snd (sendNotifications e (start d)))"
  from run_store [of e d] obtain new where
    n: "set new \<subseteq> {k. marked_by e d k}" "set new \<inter> set (child_keys d) = {}"
      "child_keys ?d1 = child_keys d @ new"
    by blast
  have "\<forall>k\<in>set new. child ?d1 k = JObj [(''notified'', JBool True)]"
  proof
    fix k assume k: "k \<in> set new"
    with n have "marked_by e d k" "k \<notin> set (child_keys d)" by auto
    then show "child ?d1 k = JObj [(''notified'', JBool True)]"
      by (simp add: run_child marked_absent)
  qed
  moreover have "set new \<subseteq> set (for_in_keys d)"
    using n(1) marked_by_enumerated by blast
  ultimately have 1: "set (child_keys d) \<subseteq> set (child_keys ?d1) \<and>
      (\<forall>k\<in>set (child_keys ?d1). k \<notin> set (child_keys d) \<longrightarrow>
         k \<in> set (for_in_keys d) \<and> child ?d1 k = JObj [(''notified'', JBool True)])"
    using n(3) by auto
  have 2: "\<forall>k f. f \<noteq> ''notified'' \<longrightarrow> child (child ?d1 k) f = child (child d k) f"
    by (simp add: run_child child_marked_other)
  have 3: "\<forall>k. child (child ?d1 k) ''notified'' = child (child d k) ''notified'' \<or>
        child (child ?d1 k) ''notified'' = JBool True"
    by (simp add: run_child child_marked_notified)
  have 4: "\<forall>k. get (get d k) ''notified'' = JBool True \<longrightarrow> child ?d1 k = child d k \<and>
      (\<forall>c. (k, c) \<notin> set (trace (snd (sendNotifications e (start d)))))"
    by (simp add: run_child run_mem block_not_candidate marked_by_def marks_def candidate_def)
  have 5: "\<forall>(k, c)\<in>set (trace (snd (sendNotifications e (start d)))). \<forall>j ch r.
      c = Update j ch r \<longrightarrow> j \<in> set (for_in_keys d) \<and> ch = [(''notified'', JBool True)]"
    by (auto simp: run_mem update_in_block dest: reached_subset)
  from 1 have 6: "set (for_in_keys d) \<subseteq> set (child_keys d) \<longrightarrow>
      set (child_keys ?d1) = set (child_keys d)"
    by blast
  from 1 6 2 3 4 5 show ?thesis by blast
qed

theorem store_only_gains_notified_true_witness:
  "set (child_keys (db (snd (sendNotifications
             \<lparr>once_result = None,
              send_result = map_of [],
              update_result = map_of [],
              object_string = plain_object_string\<rparr>
             (start (JObj [(''s1'',
                   JObj
                     [(''cardPaymentDetails'', JObj [(''cardHolderName'', JStr ''Alice'')]),
                      (''notified'', JBool False)]),
                  (''s2'',
                   JObj
                     [(''cardPaymentDetails'', JObj [(''cardHolderName'', JStr ''Bob'')]),
                      (''notified'', JBool True)])]))))))
     = {''s1'', ''s2''}
   \<and> child
        (child
          (db (snd (sendNotifications
                \<lparr>once_result = None,
                 send_result = map_of [],
                 update_result = map_of [],
                 object_string = plain_object_string\<rparr>
                (start (JObj [(''s1'',
                      JObj [(''cardPaymentDetails'',
                          JObj [(''cardHolderName'', JStr ''Alice'')]),
                         (''notified'', JBool False)]),
                     (''s2'',
                      JObj [(''cardPaymentDetails'',
                          JObj [(''cardHolderName'', JStr ''Bob'')]),
                         (''notified'', JBool True)])])))))
          ''s1'')
        ''cardPaymentDetails''
        = JObj [(''cardHolderName'', JStr ''Alice'')]
   \<and> child
        (child
          (db (snd (sendNotifications
                \<lparr>once_result = None,
                 send_result = map_of [],
                 update_result = map_of [],
                 object_string = plain_object_string\<rparr>
                (start (JObj [(''s1'',
                      JObj [(''cardPaymentDetails'',
                          JObj [(''cardHolderName'', JStr ''Alice'')]),
                         (''notified'', JBool False)]),
                     (''s2'',
                      JObj [(''cardPaymentDetails'',
                          JObj [(''cardHolderName'', JStr ''Bob'')]),
                         (''notified'', JBool True)])])))))
          ''s1'')
        ''notified''
        = JBool True
   \<and> child
        (db (snd (sendNotifications
              \<lparr>once_result = None,
               send_result = map_of [],
               update_result = map_of [],
               object_string = plain_object_string\<rparr>
              (start (JObj [(''s1'',
                    JObj [(''cardPaymentDetails'',
                        JObj [(''cardHolderName'', JStr ''Alice'')]),
                       (''notified'', JBool False)]),
                   (''s2'',
                    JObj
                      [(''cardPaymentDetails'', JObj [(''cardHolderName'', JStr ''Bob'')]),
                       (''notified'', JBool True)])])))))
        ''s2''
        = JObj [(''cardPaymentDetails'', JObj [(''cardHolderName'', JStr ''Bob'')]),
             (''notified'', JBool True)]
   \<and> (''s1'', Update ''s1'' [(''notified'', JBool True)] None)
        \<in> set (trace (snd (sendNotifications
                  \<lparr>once_result = None,
                   send_result = map_of [],
                   update_result = map_of [],
                   object_string = plain_object_string\<rparr>
                  (start (JObj [(''s1'',
                        JObj [(''cardPaymentDetails'',
                            JObj [(''cardHolderName'', JStr ''Alice'')]),
                           (''notified'', JBool False)]),
                       (''s2'',
                        JObj [(''cardPaymentDetails'',
                            JObj [(''cardHolderName'', JStr ''Bob'')]),
                           (''notified'', JBool True)])])))))"
  using store_only_gains_notified_true
    [of "JObj [(''s1'',
             JObj [(''cardPaymentDetails'', JObj [(''cardHolderName'', JStr ''Alice'')]),
                (''notified'', JBool False)]),
            (''s2'',
             JObj [(''cardPaymentDetails'', JObj [(''cardHolderName'', JStr ''Bob'')]),
                (''notified'', JBool True)])]"
        "\<lparr>once_result = None,
          send_result = map_of [],
          update_result = map_of [],
          object_string = plain_object_string\<rparr>"]
  by (simp add: sendNotifications_def loop_body_def get_prop_def nullish_def try_send_def
      Let_def child_update_def get_def for_in_keys_def all_props_def chain.simps
      console_output_def is_console_def)

text \<open>
  C8 as stated has the script create no session. In the store
  \<^verbatim>\<open>{"__proto__": {foo: {cardPaymentDetails: {cardHolderName: "Mallory"}}}, s1: ...}\<close> the
  object that \<^verbatim>\<open>val()\<close> builds inherits \<^verbatim>\<open>foo\<close>; \<^verbatim>\<open>for ... in\<close> visits it, the notification
  is sent, and \<^verbatim>\<open>ref.child("foo").update\<close> creates the child \<^verbatim>\<open>foo\<close>.
\<close>

theorem inherited_key_creates_session_counterexample:
  "''foo''
     \<notin> set (child_keys (JObj [(''__proto__'',
               JObj [(''foo'',
                   JObj [(''cardPaymentDetails'',
                       JObj [(''cardHolderName'', JStr ''Mallory'')])])]),
              (''s1'',
               JObj [(''cardPaymentDetails'', JObj [(''cardHolderName'', JStr ''Alice'')]),
                  (''notified'', JBool True)])]))
   \<and> trace (snd (sendNotifications
            \<lparr>once_result = None,
             send_result = map_of [],
             update_result = map_of [],
             object_string = plain_object_string\<rparr>
            (start (JObj [(''__proto__'',
                  JObj [(''foo'',
                      JObj [(''cardPaymentDetails'',
                          JObj [(''cardHolderName'', JStr ''Mallory'')])])]),
                 (''s1'',
                  JObj
                    [(''cardPaymentDetails'', JObj [(''cardHolderName'', JStr ''Alice'')]),
                     (''notified'', JBool True)])]))))
        = [(''foo'',
            Send
              \<lparr>notification = \<lparr>title = ''New Card Added'', body = ''Cardholder: Mallory''\<rparr>,
               topic = ''admin''\<rparr>
              None),
           (''foo'', Update ''foo'' [(''notified'', JBool True)] None),
           (''foo'', ConsoleLog ''Notification sent for card: Mallory'')]
   \<and> ''foo''
        \<in> set (child_keys (db (snd (sendNotifications
                    \<lparr>once_result = None,
                     send_result = map_of [],
                     update_result = map_of [],
                     object_string = plain_object_string\<rparr>
                    (start (JObj [(''__proto__'',
                          JObj [(''foo'',
                              JObj [(''cardPaymentDetails'',
                                  JObj [(''cardHolderName'', JStr ''Mallory'')])])]),
                         (''s1'',
                          JObj [(''cardPaymentDetails'',
                              JObj [(''cardHolderName'', JStr ''Alice'')]),
                             (''notified'', JBool True)])]))))))
   \<and> child
        (db (snd (sendNotifications
              \<lparr>once_result = None,
               send_result = map_of [],
               update_result = map_of [],
               object_string = plain_object_string\<rparr>
              (start (JObj [(''__proto__'',
                    JObj [(''foo'',
                        JObj [(''cardPaymentDetails'',
                            JObj [(''cardHolderName'', JStr ''Mallory'')])])]),
                   (''s1'',
                    JObj [(''cardPaymentDetails'',
                        JObj [(''cardHolderName'', JStr ''Alice'')]),
                       (''notified'', JBool True)])])))))
        ''foo''
        = JObj [(''notified'', JBool True)]"
  by (simp add: sendNotifications_def loop_body_def get_prop_def nullish_def try_send_def
      Let_def child_update_def get_def for_in_keys_def all_props_def chain.simps
      console_output_def is_console_def)

section \<open>Falsy card payment details\<close>

text \<open>
  C9. For a session whose \<^verbatim>\<open>cardPaymentDetails\<close> is \<^verbatim>\<open>null\<close>, \<^verbatim>\<open>false\<close>, \<^verbatim>\<open>0\<close> or the empty
  string, a run makes no call in the iteration of that session and leaves its stored record,
  and what the script reads for it, as it was.
\<close>

theorem falsy_details_not_dispatched:
  assumes "get (get d k) ''cardPaymentDetails'' \<in> {JNull, JBool False, JNum ''0'', JStr ''''}"
  shows "(\<forall>c. (k, c) \<notin> set (trace (snd (sendNotifications e (start d))))) \<and>
         child (db (snd (sendNotifications e (start d)))) k = child d k \<and>
         get (db (snd (sendNotifications e (start d)))) k = get d k"
proof -
  from assms have "\<not> candidate d k" by (auto simp: candidate_def)
  then have "block e d k = []" "\<not> marks e d k" by (simp_all add: block_eq marks_def)
  then show ?thesis by (simp add: run_mem run_child run_get marked_by_def)
qed

theorem falsy_details_not_dispatched_witness:
  "get
     (get (JObj [(''s1'', JObj [(''cardPaymentDetails'', JStr '''')])]) ''s1'')
     ''cardPaymentDetails''
     \<in> {JNull, JBool False, JNum ''0'', JStr ''''}
   \<and> trace (snd (sendNotifications
            \<lparr>once_result = None,
             send_result = map_of [],
             update_result = map_of [],
             object_string = plain_object_string\<rparr>
            (start (JObj [(''s1'', JObj [(''cardPaymentDetails'', JStr '''')])]))))
        = []
   \<and> child
        (db (snd (sendNotifications
              \<lparr>once_result = None,
               send_result = map_of [],
               update_result = map_of [],
               object_string = plain_object_string\<rparr>
              (start (JObj [(''s1'', JObj [(''cardPaymentDetails'', JStr '''')])])))))
        ''s1''
        = JObj [(''cardPaymentDetails'', JStr '''')]"
  using falsy_details_not_dispatched
    [of "JObj [(''s1'', JObj [(''cardPaymentDetails'', JStr '''')])]"
        "''s1''"
        "\<lparr>once_result = None,
          send_result = map_of [],
          update_result = map_of [],
          object_string = plain_object_string\<rparr>"]
  by (simp add: sendNotifications_def loop_body_def get_prop_def nullish_def try_send_def
      Let_def child_update_def get_def for_in_keys_def all_props_def chain.simps
      console_output_def is_console_def)

section \<open>A candidate without a card holder name\<close>

text \<open>
  C10, as the code reads the name. For a session whose \<^verbatim>\<open>cardPaymentDetails\<close> is truthy and
  has no \<^verbatim>\<open>cardHolderName\<close>, of its own or inherited, and whose \<^verbatim>\<open>notified\<close> is not \<^verbatim>\<open>true\<close>,
  the pass through the loop body throws nothing and makes the send with the body
  \<^verbatim>\<open>Cardholder: undefined\<close>; in a run that resolves and visits the session, that send is in
  the trace.
\<close>

theorem missing_name_sends_undefined:
  assumes "truthy (get (get d k) ''cardPaymentDetails'')"
    and "get (get d k) ''notified'' \<noteq> JBool True"
    and "''cardHolderName'' \<notin> set (for_in_keys (get (get d k) ''cardPaymentDetails''))"
  shows "loop_body e d k w =
       (Inr (),
        try_send e k
          \<lparr>notification = \<lparr>title = ''New Card Added'', body = ''Cardholder: undefined''\<rparr>,
           topic = ''admin''\<rparr>
          ''undefined'' w) \<and>
     (fst (sendNotifications e (start d)) = Inr () \<and> k \<in> set (for_in_keys d) \<longrightarrow>
      (k, Send \<lparr>notification = \<lparr>title = ''New Card Added'', body = ''Cardholder: undefined''\<rparr>,
                topic = ''admin''\<rparr> (send_result e k))
        \<in> set (trace (snd (sendNotifications e (start d)))))"
proof -
  have c: "candidate d k" using assms(1,2) by (simp add: candidate_def)
  have n: "card_holder d k = JUndefined"
    unfolding card_holder_def using assms(3) by (rule get_absent)
  have nd: "\<not> nullish d" "\<not> nullish (get d k)"
    using assms(1) by (auto simp: nullish_def)
  have t: "\<not> nullish (get (get d k) ''cardPaymentDetails'')"
    using assms(1) by (rule truthy_not_nullish)
  have 1: "loop_body e d k w =
       (Inr (),
        try_send e k
          \<lparr>notification = \<lparr>title = ''New Card Added'', body = ''Cardholder: undefined''\<rparr>,
           topic = ''admin''\<rparr>
          ''undefined'' w)"
    using nd t assms(1,2) n
    by (simp add: loop_body_def get_prop_def card_holder_def)
  have "(k, Send (payload ''undefined'') (send_result e k)) \<in> set (block e d k)"
    using c n by (simp add: send_in_block)
  then have 2: "fst (sendNotifications e (start d)) = Inr () \<and> k \<in> set (for_in_keys d) \<longrightarrow>
      (k, Send (payload ''undefined'') (send_result e k))
        \<in> set (trace (snd (sendNotifications e (start d))))"
    by (auto simp: run_mem run_resolves reached_all)
  from 1 2 show ?thesis by (simp add: payload_def)
qed

theorem missing_name_sends_undefined_witness:
  "fst (sendNotifications
       \<lparr>once_result = None,
        send_result = map_of [],
        update_result = map_of [],
        object_string = plain_object_string\<rparr>
       (start (JObj
           [(''s1'', JObj [(''cardPaymentDetails'', JObj [(''last4'', JStr ''4242'')])])])))
     = Inr ()
   \<and> (''s1'',
       Send
         \<lparr>notification = \<lparr>title = ''New Card Added'', body = ''Cardholder: undefined''\<rparr>,
          topic = ''admin''\<rparr>
         None)
        \<in> set (trace (snd (sendNotifications
                  \<lparr>once_result = None,
                   send_result = map_of [],
                   update_result = map_of [],
                   object_string = plain_object_string\<rparr>
                  (start (JObj [(''s1'',
                        JObj [(''cardPaymentDetails'',
                            JObj [(''last4'', JStr ''4242'')])])])))))"
  using missing_name_sends_undefined
    [of "JObj
           [(''s1'', JObj [(''cardPaymentDetails'', JObj [(''last4'', JStr ''4242'')])])]"
        "''s1''"
        "\<lparr>once_result = None,
          send_result = map_of [],
          update_result = map_of [],
          object_string = plain_object_string\<rparr>"
        "start (JObj [(''s1'',
               JObj [(''cardPaymentDetails'', JObj [(''last4'', JStr ''4242'')])])])"]
  by (simp add: sendNotifications_def loop_body_def get_prop_def nullish_def try_send_def
      Let_def child_update_def get_def for_in_keys_def all_props_def chain.simps
      console_output_def is_console_def)

text \<open>
  C10 as stated asks only that \<^verbatim>\<open>cardPaymentDetails\<close> contain no \<^verbatim>\<open>cardHolderName\<close>. The
  stored \<^verbatim>\<open>{"__proto__": {cardHolderName: "Mallory"}}\<close> has no such child, yet the object that
  \<^verbatim>\<open>val()\<close> builds inherits the name and the body sent is \<^verbatim>\<open>Cardholder: Mallory\<close>.
\<close>

theorem inherited_name_counterexample:
  "''cardHolderName''
     \<notin> set (child_keys (child
             (child
               (JObj [(''s1'',
                   JObj [(''cardPaymentDetails'',
                       JObj [(''__proto__'',
                           JObj [(''cardHolderName'', JStr ''Mallory'')])])])])
               ''s1'')
             ''cardPaymentDetails''))
   \<and> trace (snd (sendNotifications
            \<lparr>once_result = None,
             send_result = map_of [],
             update_result = map_of [],
             object_string = plain_object_string\<rparr>
            (start (JObj [(''s1'',
                  JObj [(''cardPaymentDetails'',
                      JObj [(''__proto__'',
                          JObj [(''cardHolderName'', JStr ''Mallory'')])])])]))))
        = [(''s1'',
            Send
              \<lparr>notification = \<lparr>title = ''New Card Added'', body = ''Cardholder: Mallory''\<rparr>,
               topic = ''admin''\<rparr>
              None),
           (''s1'', Update ''s1'' [(''notified'', JBool True)] None),
           (''s1'', ConsoleLog ''Notification sent for card: Mallory'')]"
  by (simp add: sendNotifications_def loop_body_def get_prop_def nullish_def try_send_def
      Let_def child_update_def get_def for_in_keys_def all_props_def chain.simps
      console_output_def is_console_def)

end
